theory Spec2Isabelle
  imports Main "HOL-Library.Multiset"
begin

section \<open>Python values, errors and characters\<close>

text \<open>
  The exceptions the program raises, each with its message.  \<open>IndexError\<close> is what
  \<open>random.choice\<close> raises on an empty sequence.
\<close>

datatype error = TypeError string | ValueError string | IndexError string

text \<open>
  What a caller may hand to the constructor of \<open>Password\<close>: the constructor tests
  \<open>isinstance(value, str)\<close>, so the argument is any Python object.
\<close>

datatype pyobject = PyStr string | PyInt int | PyNone

text \<open>
  A character is a code point below 256 (the type \<open>char\<close>).  On these code points the
  three predicates below are the ones of Python's Unicode database: \<open>str.isupper\<close>,
  \<open>str.islower\<close> and \<open>str.isdigit\<close> of a one-character string.
\<close>

definition isupper :: "char \<Rightarrow> bool" where
  "isupper c = (let n = (of_char c :: nat) in
     (65 \<le> n \<and> n \<le> 90) \<or> (192 \<le> n \<and> n \<le> 214) \<or> (216 \<le> n \<and> n \<le> 222))"

definition islower :: "char \<Rightarrow> bool" where
  "islower c = (let n = (of_char c :: nat) in
     (97 \<le> n \<and> n \<le> 122) \<or> n = 170 \<or> n = 181 \<or> n = 186
     \<or> (223 \<le> n \<and> n \<le> 246) \<or> (248 \<le> n \<and> n \<le> 255))"

definition isdigit :: "char \<Rightarrow> bool" where
  "isdigit c = (let n = (of_char c :: nat) in
     (48 \<le> n \<and> n \<le> 57) \<or> n = 178 \<or> n = 179 \<or> n = 185)"

text \<open>\<open>str.lower\<close>: below 256 exactly the uppercase characters change, each by 32.\<close>

definition lower_char :: "char \<Rightarrow> char" where
  "lower_char c = (if isupper c then char_of (of_char c + (32 :: nat)) else c)"

definition lower :: "string \<Rightarrow> string" where
  "lower s = map lower_char s"

text \<open>The constants of the module \<open>string\<close>.\<close>

definition ascii_lowercase :: string where
  "ascii_lowercase = ''abcdefghijklmnopqrstuvwxyz''"

definition ascii_uppercase :: string where
  "ascii_uppercase = ''ABCDEFGHIJKLMNOPQRSTUVWXYZ''"

definition ascii_letters :: string where
  "ascii_letters = ascii_lowercase @ ascii_uppercase"

definition digits :: string where
  "digits = ''0123456789''"

definition punctuation :: string where
  "punctuation = ''!'' @ [CHR 0x22] @ ''#$%&'' @ [CHR 0x27] @ ''()*+,-./:;<=>?@[''
     @ [CHR 0x5C] @ '']^_'' @ [CHR 0x60] @ ''{|}~''"

section \<open>Password\<close>

text \<open>
  The object holds the string \<open>_value\<close>.  \<open>Password\<close> is the constructor
  \<open>__init__\<close>: it raises on a non-string and on the empty string.
\<close>

datatype password = PasswordObj (pw_value: string)

definition Password :: "pyobject \<Rightarrow> error + password" where
  "Password v =
     (case v of
        PyStr s \<Rightarrow>
          if s = [] then Inl (ValueError ''Password cannot be empty'')
          else Inr (PasswordObj s)
      | _ \<Rightarrow> Inl (TypeError ''Password must be a string''))"

definition masked :: "password \<Rightarrow> string" where
  "masked pw = replicate (length (pw_value pw)) (CHR ''*'')"

definition pw_length :: "password \<Rightarrow> int" where
  "pw_length pw = int (length (pw_value pw))"

definition contains_uppercase :: "password \<Rightarrow> bool" where
  "contains_uppercase pw = list_ex isupper (pw_value pw)"

definition contains_lowercase :: "password \<Rightarrow> bool" where
  "contains_lowercase pw = list_ex islower (pw_value pw)"

definition contains_digit :: "password \<Rightarrow> bool" where
  "contains_digit pw = list_ex isdigit (pw_value pw)"

definition contains_special :: "password \<Rightarrow> bool" where
  "contains_special pw = list_ex (\<lambda>c. c \<in> set punctuation) (pw_value pw)"

section \<open>Analyzers\<close>

text \<open>
  The analysis result is a Python dict, whose order of insertion the report follows:
  an association list.  Its values are strings, integers, floats and booleans.  The
  type \<open>'f\<close> of floats and the float operations of the language that \<open>entropy\<close> calls
  (the literal \<open>0.0\<close>, \<open>math.log2\<close> on an integer, the product of an integer and a
  float, \<open>round(x, ndigits)\<close>) are parameters of the model.
\<close>

datatype 'f pyvalue = VStr string | VInt int | VFloat 'f | VBool bool

type_synonym 'f pydict = "(string \<times> 'f pyvalue) list"

record 'f float_ops =
  fzero :: 'f
  flog2 :: "int \<Rightarrow> 'f"
  fmul_int :: "int \<Rightarrow> 'f \<Rightarrow> 'f"
  fround :: "'f \<Rightarrow> int \<Rightarrow> 'f"

text \<open>\<open>d[k] = v\<close>: an existing key keeps its place, a new key goes to the end.\<close>

fun dict_setitem :: "string \<Rightarrow> 'v \<Rightarrow> (string \<times> 'v) list \<Rightarrow> (string \<times> 'v) list" where
  "dict_setitem k v [] = [(k, v)]"
| "dict_setitem k v (p # ps) =
     (if fst p = k then (k, v) # ps else p # dict_setitem k v ps)"

definition COMMON_PASSWORDS :: "string set" where
  "COMMON_PASSWORDS = {''password'', ''123456'', ''qwerty'', ''abc123''}"

text \<open>The four statements \<open>if ...: pool += ...\<close> of \<open>entropy\<close>, in the source's order.\<close>

definition entropy_pool :: "password \<Rightarrow> int" where
  "entropy_pool pw =
     (let pool = 0;
          pool = (if contains_lowercase pw then pool + 26 else pool);
          pool = (if contains_uppercase pw then pool + 26 else pool);
          pool = (if contains_digit pw then pool + 10 else pool);
          pool = (if contains_special pw then pool + int (length punctuation) else pool)
      in pool)"

definition entropy :: "'f float_ops \<Rightarrow> password \<Rightarrow> 'f" where
  "entropy ops pw =
     (let pool = entropy_pool pw in
      if pool = 0 then fzero ops
      else fround ops (fmul_int ops (pw_length pw) (flog2 ops pool)) 2)"

text \<open>\<open>sum\<close> of a list of booleans counts \<open>True\<close> as 1.\<close>

definition strength_score :: "password \<Rightarrow> int" where
  "strength_score pw =
     sum_list (map (\<lambda>b. if b then 1 else 0)
       [pw_length pw \<ge> 8,
        contains_lowercase pw,
        contains_uppercase pw,
        contains_digit pw,
        contains_special pw])"

definition strength :: "password \<Rightarrow> string" where
  "strength pw =
     (let score = strength_score pw in
      if score \<le> 2 then ''Weak''
      else if score \<le> 4 then ''Medium''
      else ''Strong'')"

text \<open>The dict display of \<open>BasicPasswordAnalyzer.analyze\<close>; its five keys are distinct.\<close>

definition basic_analyze :: "'f float_ops \<Rightarrow> password \<Rightarrow> 'f pydict" where
  "basic_analyze ops pw =
     [(''password'', VStr (masked pw)),
      (''length'', VInt (pw_length pw)),
      (''entropy'', VFloat (entropy ops pw)),
      (''strength'', VStr (strength pw)),
      (''is_common'', VBool (lower (pw_value pw) \<in> COMMON_PASSWORDS))]"

text \<open>
  A slice \<open>s[a:b]\<close> with step 1: a negative bound counts from the end, and both bounds
  are clipped to the length.
\<close>

definition slice_bound :: "nat \<Rightarrow> int \<Rightarrow> nat" where
  "slice_bound n i = (if i < 0 then nat (max 0 (i + int n)) else min (nat i) n)"

definition slice :: "'a list \<Rightarrow> int \<Rightarrow> int \<Rightarrow> 'a list" where
  "slice xs a b =
     (let lo = slice_bound (length xs) a; hi = slice_bound (length xs) b
      in take (hi - lo) (drop lo xs))"

text \<open>\<open>range(a, b)\<close> as the list of its elements.\<close>

definition range :: "int \<Rightarrow> int \<Rightarrow> int list" where
  "range a b = [a..b - 1]"

text \<open>
  The two nested \<open>for\<close> loops of \<open>has_repeated_patterns\<close>, each over the elements its
  range still has to visit; \<open>return True\<close> leaves both.  The loop variable \<open>size\<close> is \<open>sz\<close>.
\<close>

fun start_loop :: "string \<Rightarrow> int \<Rightarrow> int list \<Rightarrow> bool" where
  "start_loop pw sz [] = False"
| "start_loop pw sz (start # starts) =
     (if slice pw start (start + sz) = slice pw (start + sz) (start + 2 * sz)
      then True
      else start_loop pw sz starts)"

fun size_loop :: "string \<Rightarrow> int \<Rightarrow> int list \<Rightarrow> bool" where
  "size_loop pw n [] = False"
| "size_loop pw n (sz # sizes) =
     (if start_loop pw sz (range 0 (n - 2 * sz + 1)) then True
      else size_loop pw n sizes)"

definition has_repeated_patterns :: "password \<Rightarrow> bool" where
  "has_repeated_patterns p =
     (let pw = pw_value p; n = int (length pw)
      in size_loop pw n (range 1 (n div 2 + 1)))"

definition advanced_analyze :: "'f float_ops \<Rightarrow> password \<Rightarrow> 'f pydict" where
  "advanced_analyze ops pw =
     (let results = basic_analyze ops pw
      in dict_setitem ''has_repeats'' (VBool (has_repeated_patterns pw)) results)"

section \<open>Policy\<close>

record policy =
  min_length :: int
  require_upper :: bool
  require_lower :: bool
  require_digit :: bool
  require_special :: bool

definition validate :: "policy \<Rightarrow> password \<Rightarrow> bool" where
  "validate pol pw =
     list_all (\<lambda>b. b)
       [pw_length pw \<ge> min_length pol,
        \<not> require_upper pol \<or> contains_uppercase pw,
        \<not> require_lower pol \<or> contains_lowercase pw,
        \<not> require_digit pol \<or> contains_digit pw,
        \<not> require_special pol \<or> contains_special pw]"

section \<open>Generator\<close>

text \<open>
  The random source is a sequence of draws, consumed from the front; a draw \<open>r\<close> asked
  for a number below \<open>n\<close> gives \<open>r mod n\<close>, so every outcome of the library's generator
  is the outcome of some sequence.  The sequence left over is returned with each result.
\<close>

type_synonym rng = "nat \<Rightarrow> nat"

definition randbelow :: "nat \<Rightarrow> rng \<Rightarrow> nat \<times> rng" where
  "randbelow n g = (g 0 mod n, \<lambda>i. g (Suc i))"

text \<open>\<open>random.choice(seq)\<close>.\<close>

definition choice :: "string \<Rightarrow> rng \<Rightarrow> (error + char) \<times> rng" where
  "choice seq g =
     (if length seq = 0 then (Inl (IndexError ''Cannot choose from an empty sequence''), g)
      else let (j, g') = randbelow (length seq) g in (Inr (seq ! j), g'))"

text \<open>
  \<open>random.choices(population, k=k)\<close>: a list comprehension over \<open>repeat(None, k)\<close>,
  which yields nothing when \<open>k\<close> is negative.  Indexing an empty population raises.
\<close>

fun choices_loop :: "string \<Rightarrow> nat \<Rightarrow> rng \<Rightarrow> string \<times> rng" where
  "choices_loop population 0 g = ([], g)"
| "choices_loop population (Suc k) g =
     (let (j, g') = randbelow (length population) g;
          (rest, g'') = choices_loop population k g'
      in (population ! j # rest, g''))"

definition choices :: "string \<Rightarrow> int \<Rightarrow> rng \<Rightarrow> (error + string) \<times> rng" where
  "choices population k g =
     (if length population = 0 \<and> 0 < k then (Inl (IndexError ''string index out of range''), g)
      else let (cs, g') = choices_loop population (nat k) g in (Inr cs, g'))"

text \<open>
  \<open>random.shuffle(x)\<close>: for \<open>i\<close> from \<open>len(x) - 1\<close> down to 1, exchange \<open>x[i]\<close> with
  \<open>x[j]\<close> for a random \<open>j\<close> below \<open>i + 1\<close>.
\<close>

fun shuffle_loop :: "'a list \<Rightarrow> nat \<Rightarrow> rng \<Rightarrow> 'a list \<times> rng" where
  "shuffle_loop x 0 g = (x, g)"
| "shuffle_loop x (Suc i) g =
     (let (j, g') = randbelow (Suc i + 1) g
      in shuffle_loop (x[Suc i := x ! j, j := x ! Suc i]) i g')"

definition shuffle :: "'a list \<Rightarrow> rng \<Rightarrow> 'a list \<times> rng" where
  "shuffle x g = shuffle_loop x (length x - 1) g"

text \<open>
  One pass through the body of the \<open>while True\<close> loop of \<open>generate\<close>, up to the
  construction of the candidate.  The list \<open>chars\<close> of one-character strings is a list of
  characters, which \<open>"".join\<close> leaves as it is.
\<close>

definition candidate :: "int \<Rightarrow> rng \<Rightarrow> (error + password) \<times> rng" where
  "candidate len g =
     (case choice ascii_uppercase g of (Inl e, g1) \<Rightarrow> (Inl e, g1) | (Inr c1, g1) \<Rightarrow>
      case choice ascii_lowercase g1 of (Inl e, g2) \<Rightarrow> (Inl e, g2) | (Inr c2, g2) \<Rightarrow>
      case choice digits g2 of (Inl e, g3) \<Rightarrow> (Inl e, g3) | (Inr c3, g3) \<Rightarrow>
      case choice punctuation g3 of (Inl e, g4) \<Rightarrow> (Inl e, g4) | (Inr c4, g4) \<Rightarrow>
      case choices (ascii_letters @ digits @ punctuation) (len - 4) g4 of
        (Inl e, g5) \<Rightarrow> (Inl e, g5)
      | (Inr padding, g5) \<Rightarrow>
          let (chars, g6) = shuffle ([c1, c2, c3, c4] @ padding) g5
          in (Password (PyStr chars), g6))"

text \<open>
  The loop itself has no bound on its passes, so its result is an option: \<open>None\<close> is
  the loop that never returns.  An exception leaves the loop.
\<close>

partial_function (option) generate_loop ::
  "policy \<Rightarrow> int \<Rightarrow> rng \<Rightarrow> ((error + password) \<times> rng) option" where
  "generate_loop pol len g =
     (case candidate len g of
        (Inl e, g') \<Rightarrow> Some (Inl e, g')
      | (Inr password, g') \<Rightarrow>
          if validate pol password then Some (Inr password, g')
          else generate_loop pol len g')"

declare generate_loop.simps [code]

definition generate :: "policy \<Rightarrow> int \<Rightarrow> rng \<Rightarrow> ((error + password) \<times> rng) option" where
  "generate pol len g =
     (if len < min_length pol then Some (Inl (ValueError ''Length below policy minimum''), g)
      else generate_loop pol len g)"

section \<open>Properties of Password\<close>

text \<open>
  C7: constructing a Password from the empty string fails with the error for an empty
  password (\<open>ValueError("Password cannot be empty")\<close>); from every non-empty string
  \<open>s\<close> it succeeds, the length of the Password is \<open>len(s)\<close>, and its masked form has
  length \<open>len(s)\<close> and holds mask characters only.
\<close>

theorem Password_construction:
  "Password (PyStr []) = Inl (ValueError ''Password cannot be empty'') \<and>
   (s \<noteq> [] \<longrightarrow>
      (\<exists>pw. Password (PyStr s) = Inr pw \<and> pw_value pw = s
         \<and> pw_length pw = int (length s)
         \<and> length (masked pw) = length s
         \<and> (\<forall>c \<in> set (masked pw). c = CHR ''*'')))"
  by (simp add: Password_def pw_length_def masked_def)

theorem Password_construction_witness:
  "Password (PyStr []) = Inl (ValueError ''Password cannot be empty'') \<and>
   (\<exists>pw. Password (PyStr ''Abc123!'') = Inr pw \<and> pw_length pw = 7
      \<and> masked pw = ''*******'')"
  using Password_construction [of "''Abc123!''"]
  by (simp add: Password_def pw_length_def masked_def)

section \<open>Properties of the policy\<close>

text \<open>
  C2: \<open>validate\<close> returns true if and only if the password is at least \<open>min_length\<close>
  long and every enabled class requirement is met by the password; a disabled
  requirement asks nothing.
\<close>

theorem validate_iff:
  "validate pol pw \<longleftrightarrow>
     pw_length pw \<ge> min_length pol
     \<and> (require_upper pol \<longrightarrow> contains_uppercase pw)
     \<and> (require_lower pol \<longrightarrow> contains_lowercase pw)
     \<and> (require_digit pol \<longrightarrow> contains_digit pw)
     \<and> (require_special pol \<longrightarrow> contains_special pw)"
  by (simp add: validate_def)

theorem validate_iff_witness:
  "validate \<lparr>min_length = 8, require_upper = True, require_lower = True,
     require_digit = True, require_special = True\<rparr> (PasswordObj ''Abc123!@'')
   \<and> \<not> validate \<lparr>min_length = 8, require_upper = True, require_lower = True,
     require_digit = True, require_special = True\<rparr> (PasswordObj ''abc'')"
  using validate_iff [of "\<lparr>min_length = 8, require_upper = True, require_lower = True,
     require_digit = True, require_special = True\<rparr>" "PasswordObj ''Abc123!@''"]
    validate_iff [of "\<lparr>min_length = 8, require_upper = True, require_lower = True,
     require_digit = True, require_special = True\<rparr>" "PasswordObj ''abc''"]
  by (simp add: pw_length_def contains_uppercase_def contains_lowercase_def contains_digit_def
      contains_special_def isupper_def islower_def isdigit_def punctuation_def)

section \<open>Properties of the analyzers\<close>

lemma length_punctuation: "length punctuation = 32"
  by (simp add: punctuation_def)

text \<open>
  C4: the entropy is \<open>0.0\<close> when none of the four character classes is present;
  otherwise it is \<open>length * log2(pool)\<close> rounded to 2 places, where \<open>pool\<close> adds 26 for
  uppercase, 26 for lowercase, 10 for a digit and 32 for punctuation, each when present.
  The float operations are the parameters \<open>ops\<close>.
\<close>

theorem entropy_formula:
  "entropy ops pw =
     (if \<not> contains_uppercase pw \<and> \<not> contains_lowercase pw
         \<and> \<not> contains_digit pw \<and> \<not> contains_special pw
      then fzero ops
      else fround ops
             (fmul_int ops (pw_length pw)
                (flog2 ops
                   ((if contains_uppercase pw then 26 else 0)
                    + (if contains_lowercase pw then 26 else 0)
                    + (if contains_digit pw then 10 else 0)
                    + (if contains_special pw then 32 else 0))))
             2)"
  by (simp add: entropy_def entropy_pool_def length_punctuation Let_def)

text \<open>
  The formula at two passwords, with integers standing for the floats, the identity for
  \<open>log2\<close> and for the rounding: all four classes give the pool 94, a blank gives \<open>0.0\<close>.
\<close>

theorem entropy_formula_witness:
  "entropy \<lparr>fzero = 0 :: int, flog2 = (\<lambda>n. n), fmul_int = (\<lambda>a b. a * b),
       fround = (\<lambda>x n. x)\<rparr> (PasswordObj ''Abc123!@'') = 8 * 94
   \<and> entropy \<lparr>fzero = 0 :: int, flog2 = (\<lambda>n. n), fmul_int = (\<lambda>a b. a * b),
       fround = (\<lambda>x n. x)\<rparr> (PasswordObj '' '') = 0"
  using entropy_formula [of "\<lparr>fzero = 0 :: int, flog2 = (\<lambda>n. n),
       fmul_int = (\<lambda>a b. a * b), fround = (\<lambda>x n. x)\<rparr>" "PasswordObj ''Abc123!@''"]
    entropy_formula [of "\<lparr>fzero = 0 :: int, flog2 = (\<lambda>n. n),
       fmul_int = (\<lambda>a b. a * b), fround = (\<lambda>x n. x)\<rparr>" "PasswordObj '' ''"]
  by (simp add: pw_length_def contains_uppercase_def contains_lowercase_def contains_digit_def
      contains_special_def isupper_def islower_def isdigit_def punctuation_def)

lemma sum_list_indicator:
  "sum_list (map (\<lambda>b. if b then 1 else 0) bs) = int (length (filter (\<lambda>b. b) bs))"
  by (induction bs) simp_all

lemma strength_score_count:
  "strength_score pw =
     int (length (filter (\<lambda>b. b)
       [pw_length pw \<ge> 8, contains_lowercase pw, contains_uppercase pw,
        contains_digit pw, contains_special pw]))"
  unfolding strength_score_def by (rule sum_list_indicator)

lemma strength_score_bounds: "0 \<le> strength_score pw \<and> strength_score pw \<le> 5"
proof -
  have "length (filter (\<lambda>b. b)
       [pw_length pw \<ge> 8, contains_lowercase pw, contains_uppercase pw,
        contains_digit pw, contains_special pw])
     \<le> length [pw_length pw \<ge> 8, contains_lowercase pw, contains_uppercase pw,
        contains_digit pw, contains_special pw]"
    by (rule length_filter_le)
  then show ?thesis
    unfolding strength_score_count by simp
qed

lemma strength_Abc: "strength (PasswordObj ''Abc123!@'') = ''Strong''"
  by (simp add: strength_def strength_score_def pw_length_def contains_uppercase_def
      contains_lowercase_def contains_digit_def contains_special_def isupper_def islower_def
      isdigit_def punctuation_def)

text \<open>
  C5: the strength score counts the true conditions among: length at least 8, has
  lowercase, has uppercase, has digit, has special; the label is "Weak" for a score up
  to 2, "Medium" for 3 or 4 and "Strong" for 5; the strength of "Abc123!@" is "Strong".
\<close>

theorem strength_label:
  "strength_score pw =
     int (length (filter (\<lambda>b. b)
       [pw_length pw \<ge> 8, contains_lowercase pw, contains_uppercase pw,
        contains_digit pw, contains_special pw]))
   \<and> 0 \<le> strength_score pw \<and> strength_score pw \<le> 5
   \<and> (strength_score pw \<le> 2 \<longrightarrow> strength pw = ''Weak'')
   \<and> (strength_score pw = 3 \<or> strength_score pw = 4 \<longrightarrow> strength pw = ''Medium'')
   \<and> (strength_score pw = 5 \<longrightarrow> strength pw = ''Strong'')
   \<and> strength (PasswordObj ''Abc123!@'') = ''Strong''"
proof -
  have labels: "(strength_score pw \<le> 2 \<longrightarrow> strength pw = ''Weak'')
   \<and> (strength_score pw = 3 \<or> strength_score pw = 4 \<longrightarrow> strength pw = ''Medium'')
   \<and> (strength_score pw = 5 \<longrightarrow> strength pw = ''Strong'')"
    by (auto simp: strength_def Let_def)
  from strength_score_count [of pw] strength_score_bounds [of pw] labels strength_Abc
  show ?thesis by blast
qed

theorem strength_label_witness:
  "strength_score (PasswordObj ''abc'') = 1 \<and> strength (PasswordObj ''abc'') = ''Weak''
   \<and> strength_score (PasswordObj ''Abc123xyz'') = 4
   \<and> strength (PasswordObj ''Abc123xyz'') = ''Medium''
   \<and> strength_score (PasswordObj ''StrongPass123!'') = 5
   \<and> strength (PasswordObj ''StrongPass123!'') = ''Strong''"
  using strength_label [of "PasswordObj ''abc''"] strength_label [of "PasswordObj ''Abc123xyz''"]
    strength_label [of "PasswordObj ''StrongPass123!''"]
  by (simp add: pw_length_def contains_uppercase_def
      contains_lowercase_def contains_digit_def contains_special_def isupper_def islower_def
      isdigit_def punctuation_def)

lemma start_loop_iff:
  "start_loop pw sz starts \<longleftrightarrow>
     (\<exists>start \<in> set starts.
        slice pw start (start + sz) = slice pw (start + sz) (start + 2 * sz))"
  by (induction starts) auto

lemma size_loop_iff:
  "size_loop pw n sizes \<longleftrightarrow>
     (\<exists>sz \<in> set sizes. start_loop pw sz (range 0 (n - 2 * sz + 1)))"
  by (induction sizes) auto

lemma set_range: "set (range a b) = {i. a \<le> i \<and> i < b}"
  by (auto simp: range_def)

lemma slice_nat:
  assumes "i + s \<le> length xs"
  shows "slice xs (int i) (int i + int s) = take s (drop i xs)"
proof -
  have lo: "slice_bound (length xs) (int i) = i"
    using assms by (simp add: slice_bound_def)
  have "int i + int s = int (i + s)" by simp
  then have hi: "slice_bound (length xs) (int i + int s) = i + s"
    using assms unfolding slice_bound_def by (simp add: nat_add_distrib)
  show ?thesis
    by (simp add: slice_def lo hi)
qed

lemma has_repeated_patterns_int:
  "has_repeated_patterns p \<longleftrightarrow>
     (\<exists>sz start. 1 \<le> sz \<and> sz \<le> int (length (pw_value p)) div 2
        \<and> 0 \<le> start \<and> start \<le> int (length (pw_value p)) - 2 * sz
        \<and> slice (pw_value p) start (start + sz)
            = slice (pw_value p) (start + sz) (start + 2 * sz))"
  by (auto simp: has_repeated_patterns_def Let_def size_loop_iff start_loop_iff set_range)

text \<open>
  C3: \<open>has_repeats\<close> of the Advanced analyzer is true if and only if there are a size
  \<open>s\<close> from 1 to \<open>floor(n/2)\<close> and an offset \<open>i\<close> from 0 to \<open>n - 2s\<close> such that the
  substring \<open>[i, i+s)\<close> equals the substring \<open>[i+s, i+2s)\<close>, where \<open>n\<close> is the length of
  the password; it is true for "abab" and false for "abcd".
\<close>

theorem has_repeats_iff:
  "(has_repeated_patterns p \<longleftrightarrow>
     (\<exists>s i. 1 \<le> s \<and> s \<le> length (pw_value p) div 2 \<and> i \<le> length (pw_value p) - 2 * s
        \<and> take s (drop i (pw_value p)) = take s (drop (i + s) (pw_value p))))
   \<and> has_repeated_patterns (PasswordObj ''abab'')
   \<and> \<not> has_repeated_patterns (PasswordObj ''abcd'')"
proof -
  let ?pw = "pw_value p"
  let ?n = "length ?pw"
  have eq: "slice ?pw (int i) (int i + int s) = slice ?pw (int i + int s) (int i + 2 * int s)
        \<longleftrightarrow> take s (drop i ?pw) = take s (drop (i + s) ?pw)"
    if "i + 2 * s \<le> ?n" for i s
  proof -
    have a: "slice ?pw (int i) (int i + int s) = take s (drop i ?pw)"
      using that by (intro slice_nat) simp
    have "slice ?pw (int (i + s)) (int (i + s) + int s) = take s (drop (i + s) ?pw)"
      using that by (intro slice_nat) simp
    then have b: "slice ?pw (int i + int s) (int i + 2 * int s) = take s (drop (i + s) ?pw)"
      by (simp add: algebra_simps)
    show ?thesis by (simp only: a b)
  qed
  have "has_repeated_patterns p \<longleftrightarrow>
     (\<exists>s i. 1 \<le> s \<and> s \<le> ?n div 2 \<and> i \<le> ?n - 2 * s
        \<and> take s (drop i ?pw) = take s (drop (i + s) ?pw))" (is "?L \<longleftrightarrow> ?R")
  proof
    assume ?L
    then obtain sz start where h: "1 \<le> sz" "sz \<le> int ?n div 2" "0 \<le> start"
      "start \<le> int ?n - 2 * sz"
      "slice ?pw start (start + sz) = slice ?pw (start + sz) (start + 2 * sz)"
      unfolding has_repeated_patterns_int by blast
    define s i where "s = nat sz" and "i = nat start"
    have sz: "sz = int s" and start: "start = int i"
      using h by (simp_all add: s_def i_def)
    have b: "1 \<le> s" "s \<le> ?n div 2" "i + 2 * s \<le> ?n"
      using h unfolding sz start by linarith+
    have "take s (drop i ?pw) = take s (drop (i + s) ?pw)"
      using h(5) eq [OF b(3)] unfolding sz start by simp
    moreover have "i \<le> ?n - 2 * s" using b by linarith
    ultimately show ?R using b by blast
  next
    assume ?R
    then obtain s i where h: "1 \<le> s" "s \<le> ?n div 2" "i \<le> ?n - 2 * s"
      "take s (drop i ?pw) = take s (drop (i + s) ?pw)" by blast
    have b: "i + 2 * s \<le> ?n" using h by linarith
    have "slice ?pw (int i) (int i + int s) = slice ?pw (int i + int s) (int i + 2 * int s)"
      using h(4) eq [OF b] by simp
    moreover have "1 \<le> int s" "int s \<le> int ?n div 2" "0 \<le> int i" "int i \<le> int ?n - 2 * int s"
      using h b by linarith+
    ultimately show ?L unfolding has_repeated_patterns_int by blast
  qed
  moreover have "has_repeated_patterns (PasswordObj ''abab'')" by code_simp
  moreover have "\<not> has_repeated_patterns (PasswordObj ''abcd'')" by code_simp
  ultimately show ?thesis by blast
qed

text \<open>In "xabcabcy" the block "abc" of size 3 at offset 1 is repeated.\<close>

theorem has_repeats_iff_witness:
  "has_repeated_patterns (PasswordObj ''xabcabcy'')"
proof -
  let ?pw = "pw_value (PasswordObj ''xabcabcy'')"
  have "(1::nat) \<le> 3 \<and> 3 \<le> length ?pw div 2 \<and> 1 \<le> length ?pw - 2 * 3
     \<and> take 3 (drop 1 ?pw) = take 3 (drop (1 + 3) ?pw)"
    by simp
  then have "\<exists>s i. 1 \<le> s \<and> s \<le> length ?pw div 2 \<and> i \<le> length ?pw - 2 * s
        \<and> take s (drop i ?pw) = take s (drop (i + s) ?pw)"
    by blast
  with has_repeats_iff [of "PasswordObj ''xabcabcy''"] show ?thesis
    by blast
qed

text \<open>
  C8: the result of the Basic analyzer has exactly the keys password, length, entropy,
  strength, is_common, in this order, and never the key has_repeats; the result of the
  Advanced analyzer has has_repeats after the five Basic keys.
\<close>

theorem analyze_keys:
  "map fst (basic_analyze ops pw) =
     [''password'', ''length'', ''entropy'', ''strength'', ''is_common'']
   \<and> ''has_repeats'' \<notin> set (map fst (basic_analyze ops pw))
   \<and> map fst (advanced_analyze ops pw) =
       [''password'', ''length'', ''entropy'', ''strength'', ''is_common'', ''has_repeats'']"
  by (simp add: basic_analyze_def advanced_analyze_def)

theorem analyze_keys_witness:
  "map fst (advanced_analyze \<lparr>fzero = 0 :: int, flog2 = (\<lambda>n. n),
       fmul_int = (\<lambda>a b. a * b), fround = (\<lambda>x n. x)\<rparr> (PasswordObj ''Abc123!xyz''))
   = map fst (basic_analyze \<lparr>fzero = 0 :: int, flog2 = (\<lambda>n. n),
       fmul_int = (\<lambda>a b. a * b), fround = (\<lambda>x n. x)\<rparr> (PasswordObj ''Abc123!xyz''))
     @ [''has_repeats'']"
  using analyze_keys [of "\<lparr>fzero = 0 :: int, flog2 = (\<lambda>n. n),
       fmul_int = (\<lambda>a b. a * b), fround = (\<lambda>x n. x)\<rparr>" "PasswordObj ''Abc123!xyz''"]
  by simp

text \<open>
  C9: the result of the Advanced analyzer, restricted to the five Basic keys, is the
  result of the Basic analyzer on the same Password: the same entries in the same order.
\<close>

theorem advanced_restricts_to_basic:
  "filter (\<lambda>(k, v). k \<in> set [''password'', ''length'', ''entropy'', ''strength'', ''is_common''])
      (advanced_analyze ops pw) = basic_analyze ops pw
   \<and> take 5 (advanced_analyze ops pw) = basic_analyze ops pw
   \<and> (\<forall>k \<in> set [''password'', ''length'', ''entropy'', ''strength'', ''is_common''].
        map_of (advanced_analyze ops pw) k = map_of (basic_analyze ops pw) k)"
  by (simp add: basic_analyze_def advanced_analyze_def)

theorem advanced_restricts_to_basic_witness:
  "take 5 (advanced_analyze \<lparr>fzero = 0 :: int, flog2 = (\<lambda>n. n),
       fmul_int = (\<lambda>a b. a * b), fround = (\<lambda>x n. x)\<rparr> (PasswordObj ''abab''))
   = [(''password'', VStr ''****''), (''length'', VInt 4), (''entropy'', VFloat 104),
      (''strength'', VStr ''Weak''), (''is_common'', VBool False)]"
  using advanced_restricts_to_basic [of "\<lparr>fzero = 0 :: int, flog2 = (\<lambda>n. n),
       fmul_int = (\<lambda>a b. a * b), fround = (\<lambda>x n. x)\<rparr>" "PasswordObj ''abab''"]
  by (simp add: basic_analyze_def masked_def pw_length_def entropy_def entropy_pool_def
      strength_def strength_score_def lower_def lower_char_def COMMON_PASSWORDS_def
      contains_uppercase_def contains_lowercase_def contains_digit_def contains_special_def
      isupper_def islower_def isdigit_def punctuation_def)

section \<open>Properties of the generator\<close>

text \<open>
  C6: when the requested length is below the minimum of the policy, \<open>generate\<close> fails
  with the error for a violated policy (\<open>ValueError("Length below policy minimum")\<close>)
  at once: no draw has been taken from the random source, so no candidate was built.
\<close>

theorem generate_below_minimum:
  "len < min_length pol \<Longrightarrow>
     generate pol len g = Some (Inl (ValueError ''Length below policy minimum''), g)"
  by (simp add: generate_def)

theorem generate_below_minimum_witness:
  "generate \<lparr>min_length = 12, require_upper = True, require_lower = True,
     require_digit = True, require_special = True\<rparr> 11 (\<lambda>n. n)
   = Some (Inl (ValueError ''Length below policy minimum''), (\<lambda>n. n))"
  using generate_below_minimum [of 11 "\<lparr>min_length = 12, require_upper = True,
     require_lower = True, require_digit = True, require_special = True\<rparr>" "\<lambda>n. n"]
  by simp

lemma randbelow_less: "0 < n \<Longrightarrow> fst (randbelow n g) < n"
  by (simp add: randbelow_def)

lemma choice_ok:
  assumes "seq \<noteq> []"
  shows "\<exists>c g'. choice seq g = (Inr c, g') \<and> c \<in> set seq"
proof -
  obtain j g' where r: "randbelow (length seq) g = (j, g')"
    by (cases "randbelow (length seq) g")
  have "j < length seq"
    using randbelow_less [of "length seq" g] assms r by simp
  then show ?thesis
    using assms r by (simp add: choice_def)
qed

lemma choices_loop_length: "length (fst (choices_loop population k g)) = k"
  by (induction k arbitrary: g) (simp_all add: split_beta Let_def)

lemma choices_ok:
  assumes "population \<noteq> []"
  shows "\<exists>cs g'. choices population k g = (Inr cs, g') \<and> length cs = nat k"
proof -
  obtain cs g' where r: "choices_loop population (nat k) g = (cs, g')"
    by (cases "choices_loop population (nat k) g")
  have "length cs = nat k"
    using choices_loop_length [of population "nat k" g] r by simp
  then show ?thesis
    using assms r by (simp add: choices_def)
qed

lemma shuffle_loop_mset:
  "i < length x \<Longrightarrow> mset (fst (shuffle_loop x i g)) = mset x"
proof (induction i arbitrary: x g)
  case 0
  then show ?case by simp
next
  case (Suc i)
  obtain j g' where r: "randbelow (Suc i + 1) g = (j, g')"
    by (cases "randbelow (Suc i + 1) g")
  have "j < Suc i + 1"
    using randbelow_less [of "Suc i + 1" g] r by simp
  then have j: "j < length x" using Suc.prems by simp
  let ?y = "x[Suc i := x ! j, j := x ! Suc i]"
  have "mset ?y = mset x"
    using Suc.prems j by (simp add: mset_swap)
  moreover have "mset (fst (shuffle_loop ?y i g')) = mset ?y"
    using Suc.prems by (intro Suc.IH) simp
  ultimately show ?case
    using r by simp
qed

lemma shuffle_mset: "mset (fst (shuffle x g)) = mset x"
proof (cases x)
  case Nil
  then show ?thesis by (simp add: shuffle_def)
next
  case (Cons a as)
  then have "length x - 1 < length x" by simp
  then show ?thesis
    unfolding shuffle_def by (rule shuffle_loop_mset)
qed

lemma candidate_ok:
  "\<exists>chars g'. candidate len g = (Inr (PasswordObj chars), g')
     \<and> length chars = 4 + nat (len - 4)
     \<and> (\<exists>c \<in> set chars. c \<in> set ascii_uppercase)
     \<and> (\<exists>c \<in> set chars. c \<in> set ascii_lowercase)
     \<and> (\<exists>c \<in> set chars. c \<in> set digits)
     \<and> (\<exists>c \<in> set chars. c \<in> set punctuation)"
proof -
  have "ascii_uppercase \<noteq> []" by (simp add: ascii_uppercase_def)
  then obtain c1 g1 where s1: "choice ascii_uppercase g = (Inr c1, g1)" "c1 \<in> set ascii_uppercase"
    using choice_ok [of ascii_uppercase g] by blast
  have "ascii_lowercase \<noteq> []" by (simp add: ascii_lowercase_def)
  then obtain c2 g2 where s2: "choice ascii_lowercase g1 = (Inr c2, g2)" "c2 \<in> set ascii_lowercase"
    using choice_ok [of ascii_lowercase g1] by blast
  have "digits \<noteq> []" by (simp add: digits_def)
  then obtain c3 g3 where s3: "choice digits g2 = (Inr c3, g3)" "c3 \<in> set digits"
    using choice_ok [of digits g2] by blast
  have "punctuation \<noteq> []" by (simp add: punctuation_def)
  then obtain c4 g4 where s4: "choice punctuation g3 = (Inr c4, g4)" "c4 \<in> set punctuation"
    using choice_ok [of punctuation g3] by blast
  have "ascii_letters @ digits @ punctuation \<noteq> []"
    by (simp add: digits_def)
  then obtain padding g5 where
    s5: "choices (ascii_letters @ digits @ punctuation) (len - 4) g4 = (Inr padding, g5)"
      "length padding = nat (len - 4)"
    using choices_ok [of "ascii_letters @ digits @ punctuation" "len - 4" g4] by blast
  let ?drawn = "[c1, c2, c3, c4] @ padding"
  obtain chars g6 where s6: "shuffle ?drawn g5 = (chars, g6)"
    by (cases "shuffle ?drawn g5")
  have m: "mset chars = mset ?drawn"
    using shuffle_mset [of ?drawn g5] s6 by simp
  have len: "length chars = 4 + nat (len - 4)"
    using mset_eq_length [OF m] s5(2) by simp
  have st: "set chars = set ?drawn"
    using mset_eq_setD [OF m] .
  have ne: "chars \<noteq> []"
    using len by auto
  have c: "candidate len g = (Inr (PasswordObj chars), g6)"
    using ne s6 by (simp add: candidate_def s1(1) s2(1) s3(1) s4(1) s5(1) Password_def)
  have "c1 \<in> set chars" "c2 \<in> set chars" "c3 \<in> set chars" "c4 \<in> set chars"
    unfolding st by simp_all
  with s1(2) s2(2) s3(2) s4(2) c len show ?thesis
    by blast
qed

lemma ascii_uppercase_isupper: "c \<in> set ascii_uppercase \<Longrightarrow> isupper c"
  by (auto simp: ascii_uppercase_def isupper_def)

lemma ascii_lowercase_islower: "c \<in> set ascii_lowercase \<Longrightarrow> islower c"
  by (auto simp: ascii_lowercase_def islower_def)

lemma digits_isdigit: "c \<in> set digits \<Longrightarrow> isdigit c"
  by (auto simp: digits_def isdigit_def)

lemma candidate_valid:
  assumes "min_length pol \<le> len"
  shows "\<exists>pw g'. candidate len g = (Inr pw, g') \<and> validate pol pw \<and> pw_length pw = max len 4"
proof -
  obtain chars g' where c: "candidate len g = (Inr (PasswordObj chars), g')"
    and len: "length chars = 4 + nat (len - 4)"
    and up: "\<exists>c \<in> set chars. c \<in> set ascii_uppercase"
    and lo: "\<exists>c \<in> set chars. c \<in> set ascii_lowercase"
    and di: "\<exists>c \<in> set chars. c \<in> set digits"
    and pu: "\<exists>c \<in> set chars. c \<in> set punctuation"
    using candidate_ok [of len g] by blast
  let ?pw = "PasswordObj chars"
  have l: "pw_length ?pw = max len 4"
    using len by (simp add: pw_length_def)
  have "contains_uppercase ?pw"
    using up ascii_uppercase_isupper by (auto simp: contains_uppercase_def list_ex_iff)
  moreover have "contains_lowercase ?pw"
    using lo ascii_lowercase_islower by (auto simp: contains_lowercase_def list_ex_iff)
  moreover have "contains_digit ?pw"
    using di digits_isdigit by (auto simp: contains_digit_def list_ex_iff)
  moreover have "contains_special ?pw"
    using pu by (auto simp: contains_special_def list_ex_iff)
  moreover have "min_length pol \<le> pw_length ?pw"
    using assms l by simp
  ultimately have "validate pol ?pw"
    by (simp add: validate_def)
  with c l show ?thesis by blast
qed

lemma generate_first_candidate:
  assumes "min_length pol \<le> len"
  shows "\<exists>pw g'. candidate len g = (Inr pw, g') \<and> generate pol len g = Some (Inr pw, g')
     \<and> validate pol pw \<and> pw_length pw = max len 4"
proof -
  obtain pw g' where c: "candidate len g = (Inr pw, g')" and v: "validate pol pw"
    and l: "pw_length pw = max len 4"
    using candidate_valid [OF assms, of g] by blast
  have "generate_loop pol len g = Some (Inr pw, g')"
    by (subst generate_loop.simps) (simp add: c v)
  then have "generate pol len g = Some (Inr pw, g')"
    using assms by (simp add: generate_def)
  with c v l show ?thesis by blast
qed

text \<open>
  C10: when the requested length is at least the minimum of the policy and at least 4,
  then for every outcome of the random draws the first candidate that \<open>generate\<close> builds
  satisfies \<open>validate\<close>, and \<open>generate\<close> returns it: the loop ends in its first pass.
\<close>

theorem first_candidate_validates:
  assumes "min_length pol \<le> len" and "4 \<le> len"
  shows "\<exists>pw g'. candidate len g = (Inr pw, g') \<and> validate pol pw
     \<and> generate pol len g = Some (Inr pw, g')"
  using generate_first_candidate [OF assms(1), of g] by blast

text \<open>
  With the draws 3, 10, 17, ... and the requested length 6 the first candidate is
  "FkDM7]", and \<open>generate\<close> returns it.
\<close>

theorem first_candidate_validates_witness:
  "\<exists>g'. candidate 6 (\<lambda>n. 7 * n + 3) = (Inr (PasswordObj ''FkDM7]''), g')
     \<and> validate \<lparr>min_length = 6, require_upper = True, require_lower = True,
         require_digit = True, require_special = True\<rparr> (PasswordObj ''FkDM7]'')
     \<and> generate \<lparr>min_length = 6, require_upper = True, require_lower = True,
         require_digit = True, require_special = True\<rparr> 6 (\<lambda>n. 7 * n + 3)
       = Some (Inr (PasswordObj ''FkDM7]''), g')"
proof -
  let ?pol = "\<lparr>min_length = 6, require_upper = True, require_lower = True,
         require_digit = True, require_special = True\<rparr>"
  have c: "fst (candidate 6 (\<lambda>n. 7 * n + 3)) = Inr (PasswordObj ''FkDM7]'')"
    by code_simp
  have h1: "min_length ?pol \<le> 6" and h2: "(4 :: int) \<le> 6"
    by simp_all
  obtain pw g' where r: "candidate 6 (\<lambda>n. 7 * n + 3) = (Inr pw, g')"
    "validate ?pol pw" "generate ?pol 6 (\<lambda>n. 7 * n + 3) = Some (Inr pw, g')"
    using first_candidate_validates [OF h1 h2, of "\<lambda>n. 7 * n + 3"] by blast
  from c r(1) have "pw = PasswordObj ''FkDM7]''"
    by simp
  with r show ?thesis by blast
qed

text \<open>
  C1 says that the Password returned for a requested length has exactly that many
  characters.  For the policy with minimum length 3 and the requested length 3,
  \<open>generate\<close> returns, whatever the random draws, a Password of 4 characters: the
  four seeded characters are always drawn, and the padding of \<open>length - 4\<close> characters
  is empty when that number is negative.
\<close>

theorem generate_short_length:
  "\<exists>pw g'. generate \<lparr>min_length = 3, require_upper = True, require_lower = True,
       require_digit = True, require_special = True\<rparr> 3 g = Some (Inr pw, g')
     \<and> pw_length pw = 4"
  using generate_first_candidate [of "\<lparr>min_length = 3, require_upper = True,
       require_lower = True, require_digit = True, require_special = True\<rparr>" 3 g]
  by auto

text \<open>
  With every draw 0 the seeded characters are "A", "a", "0", "!", the padding for
  \<open>length - 4 = -1\<close> is empty, and the shuffle gives "a0!A": 4 characters for the
  requested length 3.
\<close>

theorem generate_short_length_witness:
  "\<exists>g'. generate \<lparr>min_length = 3, require_upper = True, require_lower = True,
       require_digit = True, require_special = True\<rparr> 3 (\<lambda>n. 0)
     = Some (Inr (PasswordObj ''a0!A''), g')
   \<and> pw_length (PasswordObj ''a0!A'') = 4"
proof -
  let ?pol = "\<lparr>min_length = 3, require_upper = True, require_lower = True,
       require_digit = True, require_special = True\<rparr>"
  have c: "fst (candidate 3 (\<lambda>n. 0)) = Inr (PasswordObj ''a0!A'')"
    by code_simp
  obtain pw g' where g: "generate ?pol 3 (\<lambda>n. 0) = Some (Inr pw, g')"
    using generate_short_length [of "\<lambda>n. 0"] by blast
  have v: "validate ?pol (PasswordObj ''a0!A'')"
    by code_simp
  obtain r g1 where c1: "candidate 3 (\<lambda>n. 0) = (r, g1)"
    by (cases "candidate 3 (\<lambda>n. 0)")
  with c have c2: "candidate 3 (\<lambda>n. 0) = (Inr (PasswordObj ''a0!A''), g1)"
    by simp
  have "generate_loop ?pol 3 (\<lambda>n. 0) = Some (Inr (PasswordObj ''a0!A''), g1)"
    by (subst generate_loop.simps) (simp only: c2 v prod.case sum.case if_True)
  then have "generate ?pol 3 (\<lambda>n. 0) = Some (Inr (PasswordObj ''a0!A''), g1)"
    by (simp add: generate_def)
  moreover have "pw_length (PasswordObj ''a0!A'') = 4"
    by (simp add: pw_length_def)
  ultimately show ?thesis using g by blast
qed

end
